theory Spec2Isabelle
  imports Complex_Main "HOL-Library.AList" "HOL-Library.Char_ord" "HOL-Library.List_Lexorder"
begin

section \<open>Values, configuration and the outside world\<close>

text \<open>
  The parser keeps every record as a Python dict from field names to strings, integers
  or \<^verbatim>\<open>None\<close>. A dict is a map; \<^verbatim>\<open>d.get(k)\<close> yields \<^verbatim>\<open>None\<close> for a missing key
  and for a key bound to \<^verbatim>\<open>None\<close> alike. Incoming records are fresh dicts (as
  \<^verbatim>\<open>parse_gift_data\<close> builds them), so records are modelled as values.
\<close>

datatype pyval = VNone | VStr string | VInt int

type_synonym gift = "string \<rightharpoonup> pyval"

definition dict_get :: "gift \<Rightarrow> string \<Rightarrow> pyval" where
  "dict_get d k = (case d k of None \<Rightarrow> VNone | Some v \<Rightarrow> v)"

fun truthy :: "pyval \<Rightarrow> bool" where
  "truthy VNone = False"
| "truthy (VStr s) = (s \<noteq> [])"
| "truthy (VInt i) = (i \<noteq> 0)"

text \<open>The fields of \<^verbatim>\<open>ParserConfig\<close> that the modelled functions read.\<close>

record config =
  MATERIALS_DIR :: string
  COLLECTIONS_DIR :: string
  CACHE_DIR :: string
  FILE_LIST :: string
  CACHE_FILE :: string
  PROGRESS_CACHE :: string
  MAX_CONCURRENT_REQUESTS :: int
  BATCH_SIZE :: int
  SAVE_INTERVAL :: int
  AUTO_BACKUP :: bool
  SKIP_404_ERRORS :: bool
  SKIP_TIMEOUT_ERRORS :: bool

definition default_config :: config where
  "default_config =
     \<lparr> MATERIALS_DIR = ''/app/materials'',
       COLLECTIONS_DIR = ''/app/output/collections'',
       CACHE_DIR = ''/app/output/cache'',
       FILE_LIST = ''/app/materials/file_list.txt'',
       CACHE_FILE = ''/app/output/cache/processed_urls.txt'',
       PROGRESS_CACHE = ''/app/output/cache/progress.json'',
       MAX_CONCURRENT_REQUESTS = 100,
       BATCH_SIZE = 500,
       SAVE_INTERVAL = 1000,
       AUTO_BACKUP = True,
       SKIP_404_ERRORS = True,
       SKIP_TIMEOUT_ERRORS = False \<rparr>"

text \<open>
  One reading of the clock: \<^verbatim>\<open>time.time()\<close> and the text of
  \<^verbatim>\<open>datetime.utcnow().isoformat()\<close>.
\<close>

record clk =
  time :: real
  utcnow :: string

text \<open>
  What one attempt to fetch a URL meets: an HTTP status with the body text, a timeout,
  a transport error of aiohttp (\<^verbatim>\<open>ClientError\<close>) or any other exception.
\<close>

datatype response =
    Status nat string
  | Timeout
  | ClientFailure string
  | Crash string

datatype exn =
    TimeoutError
  | ClientError string
  | ClientResponseError nat string
  | UnexpectedError string
  | ValueError string
  | ZeroDivisionError string

fun digit_char :: "nat \<Rightarrow> char" where
  "digit_char n = char_of (48 + n mod 10)"

fun str_nat_aux :: "nat \<Rightarrow> nat \<Rightarrow> string \<Rightarrow> string" where
  "str_nat_aux 0 n acc = acc"
| "str_nat_aux (Suc k) n acc =
     (if n < 10 then digit_char n # acc
      else str_nat_aux k (n div 10) (digit_char n # acc))"

definition str_nat :: "nat \<Rightarrow> string" where
  "str_nat n = str_nat_aux (Suc n) n []"

text \<open>\<^verbatim>\<open>str(e)\<close>; for \<^verbatim>\<open>ClientResponseError\<close> the status and the message, as aiohttp prints them.\<close>

fun str_exn :: "exn \<Rightarrow> string" where
  "str_exn TimeoutError = []"
| "str_exn (ClientError m) = m"
| "str_exn (ClientResponseError code m) = str_nat code @ '', message='' @ m"
| "str_exn (UnexpectedError m) = m"
| "str_exn (ValueError m) = m"
| "str_exn (ZeroDivisionError m) = m"

text \<open>
  The collaborators of the pipeline: the network (the response to the \<open>n\<close>-th attempt
  on a URL within one call of \<^verbatim>\<open>_download_single\<close>), the page-layout extractor
  \<^verbatim>\<open>parse_gift_data\<close>, the test \<^verbatim>\<open>urlparse(u).scheme and urlparse(u).netloc\<close>, and
  the JSON codec of collection files and cache files.
\<close>

record collection =
  collection_name :: string
  total_gifts :: nat
  processed_gifts :: nat
  last_updated :: string
  created_at :: string
  gifts :: "gift list"

record status_entry =
  status :: string
  processed_at :: string
  metadata :: gift

record progress_entry =
  p_total_urls :: nat
  p_processed_urls :: nat
  p_success_count :: nat
  p_error_count :: nat
  p_completion_rate :: real
  p_success_rate :: real
  p_last_updated :: string

record env =
  net :: "string \<Rightarrow> nat \<Rightarrow> response"
  parse_gift_data :: "string \<Rightarrow> string \<Rightarrow> gift option"
  url_has_scheme_and_netloc :: "string \<Rightarrow> bool"
  dumps_collection :: "collection \<Rightarrow> string"
  loads_collection :: "string \<Rightarrow> collection option"
  dumps_url_status :: "(string \<rightharpoonup> status_entry) \<Rightarrow> string"
  dumps_progress :: "(string \<rightharpoonup> progress_entry) \<Rightarrow> string"

section \<open>The file system\<close>

text \<open>
  Files by path; a path the process may not write raises on \<^verbatim>\<open>open(..., 'w')\<close>, on
  a copy to it and on a rename to it.
\<close>

record filesystem =
  files :: "string \<rightharpoonup> string"
  denied :: "string \<Rightarrow> bool"

definition fs_exists :: "filesystem \<Rightarrow> string \<Rightarrow> bool" where
  "fs_exists f p = (files f p \<noteq> None)"

definition fs_write :: "string \<Rightarrow> string \<Rightarrow> filesystem \<Rightarrow> filesystem option" where
  "fs_write p s f = (if denied f p then None else Some (f\<lparr>files := (files f)(p \<mapsto> s)\<rparr>))"

definition fs_copy :: "string \<Rightarrow> string \<Rightarrow> filesystem \<Rightarrow> filesystem option" where
  "fs_copy src dst f =
     (case files f src of
        None \<Rightarrow> None
      | Some s \<Rightarrow> fs_write dst s f)"

definition fs_rename :: "string \<Rightarrow> string \<Rightarrow> filesystem \<Rightarrow> filesystem option" where
  "fs_rename src dst f =
     (case files f src of
        None \<Rightarrow> None
      | Some s \<Rightarrow>
          if denied f dst then None
          else Some (f\<lparr>files := ((files f)(dst \<mapsto> s))(src := None)\<rparr>))"

text \<open>\<^verbatim>\<open>pathlib\<close>: the last component of a path, its parent, and \<^verbatim>\<open>with_suffix\<close>.\<close>

definition path_name :: "string \<Rightarrow> string" where
  "path_name p = rev (takeWhile (\<lambda>c. c \<noteq> CHR ''/'') (rev p))"

definition path_parent :: "string \<Rightarrow> string" where
  "path_parent p = take (length p - length (path_name p)) p"

definition name_suffix :: "string \<Rightarrow> string" where
  "name_suffix n =
     (let after = rev (takeWhile (\<lambda>c. c \<noteq> CHR ''.'') (rev n));
          i = length n - length after - 1
      in if CHR ''.'' \<in> set n \<and> 0 < i \<and> after \<noteq> [] then drop i n else [])"

definition with_suffix :: "string \<Rightarrow> string \<Rightarrow> string" where
  "with_suffix p s =
     (let n = path_name p
      in path_parent p @ take (length n - length (name_suffix n)) n @ s)"

definition collection_file :: "config \<Rightarrow> string \<Rightarrow> string" where
  "collection_file cfg name = COLLECTIONS_DIR cfg @ ''/'' @ name @ ''.json''"

definition backup_file :: "config \<Rightarrow> string \<Rightarrow> string" where
  "backup_file cfg name = COLLECTIONS_DIR cfg @ ''/'' @ name @ ''.json.backup''"

definition temp_file :: "config \<Rightarrow> string \<Rightarrow> string" where
  "temp_file cfg name = with_suffix (collection_file cfg name) ''.tmp''"

section \<open>The downloader\<close>

text \<open>
  \<^verbatim>\<open>AsyncDownloader\<close>: the counters of \<^verbatim>\<open>self.stats\<close> and the set
  \<^verbatim>\<open>self.failed_urls\<close>. The tasks of a batch are modelled as run one after the other
  in the order of the batch, which is the order in which \<^verbatim>\<open>download_batch\<close> collects
  their results.
\<close>

record downloader =
  total_requests :: nat
  successful_requests :: nat
  failed_requests :: nat
  retries :: nat
  timeouts :: nat
  errors_404 :: nat
  other_errors :: nat
  failed_urls :: "string set"

definition new_downloader :: downloader where
  "new_downloader =
     \<lparr> total_requests = 0, successful_requests = 0, failed_requests = 0, retries = 0,
       timeouts = 0, errors_404 = 0, other_errors = 0, failed_urls = {} \<rparr>"

type_synonym fetch_result = "string \<times> string option \<times> string option"

text \<open>The handler \<^verbatim>\<open>except ClientError as e\<close>: count the failure, return the error text.\<close>

definition client_error_result ::
  "exn \<Rightarrow> string \<Rightarrow> downloader \<Rightarrow> (exn + fetch_result) \<times> downloader" where
  "client_error_result e url d =
     (Inr (url, None, Some (''Client error: '' @ str_exn e)),
      d\<lparr>failed_requests := failed_requests d + 1\<rparr>)"

text \<open>
  One run of the body of \<^verbatim>\<open>_download_single\<close>. A \<^verbatim>\<open>ClientResponseError\<close> raised for a
  status is raised inside the \<^verbatim>\<open>try\<close> block, and it is a \<^verbatim>\<open>ClientError\<close>: the handler
  above catches it.
\<close>

definition download_attempt ::
  "config \<Rightarrow> response \<Rightarrow> string \<Rightarrow> downloader \<Rightarrow> (exn + fetch_result) \<times> downloader" where
  "download_attempt cfg r url d =
     (let d1 = d\<lparr>total_requests := total_requests d + 1\<rparr> in
      case r of
        Status code body \<Rightarrow>
          if code = 200 then
            (Inr (url, Some body, None), d1\<lparr>successful_requests := successful_requests d1 + 1\<rparr>)
          else if code = 404 then
            (let d2 = d1\<lparr>errors_404 := errors_404 d1 + 1,
                         failed_urls := insert url (failed_urls d1)\<rparr> in
             if SKIP_404_ERRORS cfg then (Inr (url, None, Some ''404 Not Found''), d2)
             else client_error_result (ClientResponseError 404 []) url d2)
          else
            client_error_result (ClientResponseError code (''HTTP '' @ str_nat code)) url
              (d1\<lparr>other_errors := other_errors d1 + 1\<rparr>)
      | Timeout \<Rightarrow>
          (let d2 = d1\<lparr>timeouts := timeouts d1 + 1, failed_requests := failed_requests d1 + 1\<rparr> in
           if SKIP_TIMEOUT_ERRORS cfg then (Inr (url, None, Some ''Request timeout''), d2)
           else (Inl TimeoutError, d2))
      | ClientFailure m \<Rightarrow> client_error_result (ClientError m) url d1
      | Crash m \<Rightarrow> (Inl (UnexpectedError m), d1\<lparr>failed_requests := failed_requests d1 + 1\<rparr>))"

text \<open>
  The decorator \<^verbatim>\<open>@retry(stop=stop_after_attempt(3), wait=wait_exponential(multiplier=1,
  min=1, max=10), reraise=True)\<close>: a call that returns is final; a call that raises is
  run again after the wait, until the attempt number reaches 3, when the exception is
  raised to the caller. The waits slept are returned with the outcome.
\<close>

definition stop_after_attempt :: nat where
  "stop_after_attempt = 3"

definition wait_exponential :: "nat \<Rightarrow> real" where
  "wait_exponential attempt_number = max 1 (min (2 ^ (attempt_number - 1)) 10)"

function download_single_from ::
  "config \<Rightarrow> (string \<Rightarrow> nat \<Rightarrow> response) \<Rightarrow> string \<Rightarrow> nat \<Rightarrow> downloader
     \<Rightarrow> (exn + fetch_result) \<times> real list \<times> downloader" where
  "download_single_from cfg nw url n d =
     (let (out, d') = download_attempt cfg (nw url n) url d in
      if isl out \<and> n < stop_after_attempt then
        (let (out', ws, d'') = download_single_from cfg nw url (Suc n) d'
         in (out', wait_exponential n # ws, d''))
      else (out, [], d'))"
  by pat_completeness auto
termination
  by (relation "measure (\<lambda>(cfg, nw, url, n, d). stop_after_attempt - n)") auto

definition download_single ::
  "config \<Rightarrow> (string \<Rightarrow> nat \<Rightarrow> response) \<Rightarrow> string \<Rightarrow> downloader
     \<Rightarrow> (exn + fetch_result) \<times> real list \<times> downloader" where
  "download_single cfg nw url d = download_single_from cfg nw url 1 d"

declare download_single_from.simps [simp del]


text \<open>
  \<^verbatim>\<open>download_batch\<close>: a task for every URL of the batch that is not in
  \<^verbatim>\<open>failed_urls\<close> when the batch starts; the result of each task, or for a task that
  raised the triple \<^verbatim>\<open>(url, None, str(e))\<close>.
\<close>

fun run_tasks ::
  "config \<Rightarrow> (string \<Rightarrow> nat \<Rightarrow> response) \<Rightarrow> string list \<Rightarrow> downloader
     \<Rightarrow> fetch_result list \<times> downloader" where
  "run_tasks cfg nw [] d = ([], d)"
| "run_tasks cfg nw (url # us) d =
     (let (out, ws, d1) = download_single cfg nw url d;
          r = (case out of Inr r \<Rightarrow> r | Inl e \<Rightarrow> (url, None, Some (str_exn e)));
          (rs, d2) = run_tasks cfg nw us d1
      in (r # rs, d2))"

definition download_batch ::
  "config \<Rightarrow> (string \<Rightarrow> nat \<Rightarrow> response) \<Rightarrow> string list \<Rightarrow> downloader
     \<Rightarrow> fetch_result list \<times> downloader" where
  "download_batch cfg nw urls d =
     run_tasks cfg nw (filter (\<lambda>url. url \<notin> failed_urls d) urls) d"

text \<open>
  \<^verbatim>\<open>download_with_batching\<close>: \<^verbatim>\<open>for i in range(0, len(urls), batch_size)\<close> over the
  slices \<^verbatim>\<open>urls[i:i + batch_size]\<close>. A step of 0 makes \<^verbatim>\<open>range\<close> raise, a negative step
  makes it empty.
\<close>

function batch_loop ::
  "config \<Rightarrow> (string \<Rightarrow> nat \<Rightarrow> response) \<Rightarrow> nat \<Rightarrow> string list \<Rightarrow> nat \<Rightarrow> downloader
     \<Rightarrow> fetch_result list \<times> downloader" where
  "batch_loop cfg nw b urls i d =
     (if i < length urls \<and> 0 < b then
        (let (rs, d1) = download_batch cfg nw (take b (drop i urls)) d;
             (rs', d2) = batch_loop cfg nw b urls (i + b) d1
         in (rs @ rs', d2))
      else ([], d))"
  by pat_completeness auto
termination
  by (relation "measure (\<lambda>(cfg, nw, b, urls, i, d). length urls - i)") auto

declare batch_loop.simps [simp del]

definition download_with_batching ::
  "config \<Rightarrow> (string \<Rightarrow> nat \<Rightarrow> response) \<Rightarrow> string list \<Rightarrow> int \<Rightarrow> downloader
     \<Rightarrow> (exn + fetch_result list) \<times> downloader" where
  "download_with_batching cfg nw urls batch_size d =
     (if batch_size = 0 then (Inl (ValueError ''range() arg 3 must not be zero''), d)
      else if batch_size < 0 then (Inr [], d)
      else (case batch_loop cfg nw (nat batch_size) urls 0 d of (rs, d') \<Rightarrow> (Inr rs, d')))"


section \<open>The cache manager\<close>

record cache =
  processed_urls :: "string set"
  url_status_cache :: "string \<rightharpoonup> status_entry"
  collection_progress :: "string \<rightharpoonup> progress_entry"
  cache_dirty :: bool
  last_save_time :: string

definition new_cache :: "clk \<Rightarrow> cache" where
  "new_cache ck =
     \<lparr> processed_urls = {}, url_status_cache = Map.empty, collection_progress = Map.empty,
       cache_dirty = False, last_save_time = utcnow ck \<rparr>"


definition is_url_processed :: "cache \<Rightarrow> string \<Rightarrow> bool" where
  "is_url_processed c url = (url \<in> processed_urls c)"

text \<open>\<^verbatim>\<open>mark_url_processed\<close>; the metadata stored is \<^verbatim>\<open>metadata or {}\<close>.\<close>

definition mark_url_processed ::
  "clk \<Rightarrow> string \<Rightarrow> string \<Rightarrow> gift option \<Rightarrow> cache \<Rightarrow> cache" where
  "mark_url_processed ck url st meta c =
     c\<lparr> processed_urls := insert url (processed_urls c),
        url_status_cache := (url_status_cache c)(url \<mapsto>
          \<lparr> status = st,
            processed_at = utcnow ck @ ''Z'',
            metadata = (case meta of None \<Rightarrow> Map.empty | Some m \<Rightarrow> m) \<rparr>),
        cache_dirty := True \<rparr>"

definition filter_unprocessed_urls :: "cache \<Rightarrow> string list \<Rightarrow> string list" where
  "filter_unprocessed_urls c urls = filter (\<lambda>url. \<not> is_url_processed c url) urls"

definition update_collection_progress ::
  "clk \<Rightarrow> string \<Rightarrow> nat \<Rightarrow> nat \<Rightarrow> nat \<Rightarrow> nat \<Rightarrow> cache \<Rightarrow> cache" where
  "update_collection_progress ck name total_n processed success errors c =
     c\<lparr> collection_progress := (collection_progress c)(name \<mapsto>
          \<lparr> p_total_urls = total_n,
            p_processed_urls = processed,
            p_success_count = success,
            p_error_count = errors,
            p_completion_rate = (if total_n > 0 then (real processed / real total_n) * 100 else 0),
            p_success_rate = (if processed > 0 then (real success / real processed) * 100 else 0),
            p_last_updated = utcnow ck @ ''Z'' \<rparr>),
        cache_dirty := True \<rparr>"

text \<open>\<^verbatim>\<open>_save_processed_urls\<close> writes the sorted URLs, one per line.\<close>

definition processed_urls_text :: "string set \<Rightarrow> string" where
  "processed_urls_text urls = concat (map (\<lambda>url. url @ [CHR 0x0A]) (sorted_list_of_set urls))"

definition url_status_cache_file :: "config \<Rightarrow> string" where
  "url_status_cache_file cfg = CACHE_DIR cfg @ ''/url_status_cache.json''"

text \<open>
  \<^verbatim>\<open>save_cache\<close>: nothing to do unless dirty or forced; otherwise the three files are
  written in turn, and only when all three writes went through is the dirty flag cleared
  and the time of the save noted. A write that raises leaves the earlier files written
  and gives \<^verbatim>\<open>False\<close>.
\<close>

definition save_cache ::
  "env \<Rightarrow> config \<Rightarrow> clk \<Rightarrow> bool \<Rightarrow> cache \<times> filesystem \<Rightarrow> bool \<times> cache \<times> filesystem" where
  "save_cache ev cfg ck force cf =
     (case cf of (c, f) \<Rightarrow>
        if \<not> cache_dirty c \<and> \<not> force then (True, c, f)
        else
          (case fs_write (CACHE_FILE cfg) (processed_urls_text (processed_urls c)) f of
             None \<Rightarrow> (False, c, f)
           | Some f1 \<Rightarrow>
               (case fs_write (url_status_cache_file cfg) (dumps_url_status ev (url_status_cache c)) f1 of
                  None \<Rightarrow> (False, c, f1)
                | Some f2 \<Rightarrow>
                    (case fs_write (PROGRESS_CACHE cfg) (dumps_progress ev (collection_progress c)) f2 of
                       None \<Rightarrow> (False, c, f2)
                     | Some f3 \<Rightarrow>
                         (True, c\<lparr>cache_dirty := False, last_save_time := utcnow ck\<rparr>, f3)))))"

section \<open>The data manager\<close>

text \<open>
  \<^verbatim>\<open>collections_cache\<close> is a dict in insertion order: an association list, updated in
  place or extended at the end. \<^verbatim>\<open>loads_collection\<close> stands for \<^verbatim>\<open>json.loads\<close> on a
  collection file: the decoded collection, or \<open>None\<close> when decoding raises.
\<close>

record data_manager =
  collections_cache :: "(string \<times> collection) list"
  dm_last_save_time :: real

definition new_data_manager :: "clk \<Rightarrow> data_manager" where
  "new_data_manager ck = \<lparr> collections_cache = [], dm_last_save_time = time ck \<rparr>"

definition create_empty_collection :: "clk \<Rightarrow> string \<Rightarrow> collection" where
  "create_empty_collection ck name =
     \<lparr> collection_name = name, total_gifts = 0, processed_gifts = 0,
       last_updated = utcnow ck @ ''Z'', created_at = utcnow ck @ ''Z'', gifts = [] \<rparr>"

definition load_collection ::
  "env \<Rightarrow> config \<Rightarrow> clk \<Rightarrow> string \<Rightarrow> data_manager \<times> filesystem \<Rightarrow> collection \<times> data_manager" where
  "load_collection ev cfg ck name df =
     (case df of (m, f) \<Rightarrow>
        (case map_of (collections_cache m) name of
           Some c \<Rightarrow> (c, m)
         | None \<Rightarrow>
             (let fresh = create_empty_collection ck name;
                  c = (case files f (collection_file cfg name) of
                         None \<Rightarrow> fresh
                       | Some content \<Rightarrow>
                           (case loads_collection ev content of None \<Rightarrow> fresh | Some c \<Rightarrow> c))
              in (c, m\<lparr>collections_cache := AList.update name c (collections_cache m)\<rparr>))))"

text \<open>
  \<^verbatim>\<open>save_collection\<close>. The cached collection is stamped first; then, in this order, the
  backup copy (when the file exists and \<^verbatim>\<open>AUTO_BACKUP\<close> is set), the write of the
  temporary file, and the rename of the temporary file over the collection file. Any of
  the three may raise, which gives \<^verbatim>\<open>False\<close> and leaves what was done so far. The
  parameter \<^verbatim>\<open>force_write\<close> is not read by the body.
\<close>

definition stamp_collection :: "clk \<Rightarrow> collection \<Rightarrow> collection" where
  "stamp_collection ck c = c\<lparr>last_updated := utcnow ck @ ''Z'', processed_gifts := length (gifts c)\<rparr>"

definition backup_step :: "config \<Rightarrow> string \<Rightarrow> filesystem \<Rightarrow> filesystem option" where
  "backup_step cfg name f =
     (if fs_exists f (collection_file cfg name) \<and> AUTO_BACKUP cfg
      then fs_copy (collection_file cfg name) (backup_file cfg name) f
      else Some f)"

definition save_collection ::
  "env \<Rightarrow> config \<Rightarrow> clk \<Rightarrow> string \<Rightarrow> data_manager \<times> filesystem
     \<Rightarrow> bool \<times> data_manager \<times> filesystem" where
  "save_collection ev cfg ck name df =
     (case df of (m, f) \<Rightarrow>
        (case map_of (collections_cache m) name of
           None \<Rightarrow> (False, m, f)
         | Some c \<Rightarrow>
             (let c1 = stamp_collection ck c;
                  m1 = m\<lparr>collections_cache := AList.update name c1 (collections_cache m)\<rparr>
              in case backup_step cfg name f of
                   None \<Rightarrow> (False, m1, f)
                 | Some f1 \<Rightarrow>
                     (case fs_write (temp_file cfg name) (dumps_collection ev c1) f1 of
                        None \<Rightarrow> (False, m1, f1)
                      | Some f2 \<Rightarrow>
                          (case fs_rename (temp_file cfg name) (collection_file cfg name) f2 of
                             None \<Rightarrow> (False, m1, f2)
                           | Some f3 \<Rightarrow> (True, m1\<lparr>dm_last_save_time := time ck\<rparr>, f3))))))"

text \<open>
  The file-system states a save passes through, in order: the state before, the state
  after the backup step, the temporary file holding each prefix of the JSON text in
  turn (a write can be cut anywhere), and the state after the rename. An interruption
  of the save leaves the file system in one of them.
\<close>

definition save_collection_fs_states ::
  "env \<Rightarrow> config \<Rightarrow> clk \<Rightarrow> string \<Rightarrow> data_manager \<times> filesystem \<Rightarrow> filesystem list" where
  "save_collection_fs_states ev cfg ck name df =
     (case df of (m, f) \<Rightarrow>
        (case map_of (collections_cache m) name of
           None \<Rightarrow> [f]
         | Some c \<Rightarrow>
             (let content = dumps_collection ev (stamp_collection ck c) in
              case backup_step cfg name f of
                None \<Rightarrow> [f]
              | Some f1 \<Rightarrow>
                  if denied f1 (temp_file cfg name) then [f, f1]
                  else
                    [f, f1]
                    @ map (\<lambda>j. f1\<lparr>files := (files f1)(temp_file cfg name \<mapsto> take j content)\<rparr>)
                        [0 ..< Suc (length content)]
                    @ (case fs_rename (temp_file cfg name) (collection_file cfg name)
                              (f1\<lparr>files := (files f1)(temp_file cfg name \<mapsto> content)\<rparr>) of
                         None \<Rightarrow> []
                       | Some f3 \<Rightarrow> [f3]))))"

text \<open>
  \<^verbatim>\<open>add_gifts_to_collection\<close>. The inner loop looks for the first stored record with the
  id of the incoming one and replaces it when the two dicts differ.
\<close>

fun update_existing :: "string \<Rightarrow> gift \<Rightarrow> pyval \<Rightarrow> gift list \<Rightarrow> gift list \<times> nat" where
  "update_existing now g gid [] = ([], 0)"
| "update_existing now g gid (existing # rest) =
     (if dict_get existing ''gift_id'' = gid then
        (if existing \<noteq> g then
           (g(''updated_at'' \<mapsto> VStr now, ''previous_status'' \<mapsto> dict_get existing ''status'') # rest, 1)
         else (existing # rest, 0))
      else (let (rest', n) = update_existing now g gid rest in (existing # rest', n)))"

text \<open>The body of \<^verbatim>\<open>for gift in gifts\<close>, on the stored list, the index of ids and the two counters.\<close>

definition upsert_step ::
  "string \<Rightarrow> gift \<Rightarrow> gift list \<times> pyval set \<times> nat \<times> nat \<Rightarrow> gift list \<times> pyval set \<times> nat \<times> nat" where
  "upsert_step now g acc =
     (case acc of (stored, existing_gift_ids, added_count, updated_count) \<Rightarrow>
        (let gift_id = dict_get g ''gift_id'' in
         if \<not> truthy gift_id then acc
         else if gift_id \<in> existing_gift_ids then
           (let (stored', n) = update_existing now g gift_id stored
            in (stored', existing_gift_ids, added_count, updated_count + n))
         else (stored @ [g], insert gift_id existing_gift_ids, added_count + 1, updated_count)))"

definition upsert_loop ::
  "string \<Rightarrow> gift list \<Rightarrow> gift list \<times> pyval set \<times> nat \<times> nat \<Rightarrow> gift list \<times> pyval set \<times> nat \<times> nat" where
  "upsert_loop now gs acc = fold (upsert_step now) gs acc"

definition add_gifts_to_collection ::
  "env \<Rightarrow> config \<Rightarrow> clk \<Rightarrow> string \<Rightarrow> gift list \<Rightarrow> data_manager \<times> filesystem
     \<Rightarrow> nat \<times> data_manager \<times> filesystem" where
  "add_gifts_to_collection ev cfg ck name gs df =
     (if gs = [] then (0, df)
      else
        (case load_collection ev cfg ck name df of (c, m1) \<Rightarrow>
           (case upsert_loop (utcnow ck @ ''Z'') gs
                   (gifts c, set (map (\<lambda>g. dict_get g ''gift_id'') (gifts c)), 0, 0) of
              (stored, ids, added_count, updated_count) \<Rightarrow>
                (let c' = c\<lparr> gifts := stored,
                             total_gifts := length stored,
                             processed_gifts :=
                               length (filter (\<lambda>g. dict_get g ''status'' = VStr ''active'') stored) \<rparr>;
                     m2 = m1\<lparr>collections_cache := AList.update name c' (collections_cache m1)\<rparr>
                 in if time ck - dm_last_save_time m2 > 30 then
                      (case save_collection ev cfg ck name (m2, snd df) of
                         (ok, m3, f3) \<Rightarrow> (added_count + updated_count, m3, f3))
                    else (added_count + updated_count, m2, snd df)))))"



section \<open>Validation of a parsed record\<close>

text \<open>
  \<^verbatim>\<open>validate_gift_data\<close>: the four required fields are present and truthy, and the URL
  is a string with a scheme and a network location.
\<close>

definition validate_gift_data :: "env \<Rightarrow> gift \<Rightarrow> bool" where
  "validate_gift_data ev g =
     (list_all (\<lambda>field. g field \<noteq> None \<and> truthy (dict_get g field))
        [''url'', ''gift_id'', ''collection'', ''status'']
      \<and> (case g ''url'' of Some (VStr u) \<Rightarrow> url_has_scheme_and_netloc ev u | _ \<Rightarrow> False))"

section \<open>The collection manager\<close>

record collection_stats =
  cs_collection_name :: string
  cs_total_urls :: nat
  cs_processed_urls :: nat
  cs_successful_parses :: nat
  cs_failed_parses :: nat
  cs_success_rate :: real
  cs_duration :: real
  cs_urls_per_second :: real

record processing_stats =
  ps_total_collections :: nat
  ps_completed_collections :: nat
  ps_total_urls :: nat
  ps_processed_urls :: nat
  ps_successful_parses :: nat
  ps_failed_parses :: nat
  ps_skipped_urls :: nat
  ps_start_time :: "real option"
  ps_end_time :: "real option"
  ps_total_duration :: "real option"

definition new_processing_stats :: processing_stats where
  "new_processing_stats =
     \<lparr> ps_total_collections = 0, ps_completed_collections = 0, ps_total_urls = 0,
       ps_processed_urls = 0, ps_successful_parses = 0, ps_failed_parses = 0,
       ps_skipped_urls = 0, ps_start_time = None, ps_end_time = None,
       ps_total_duration = None \<rparr>"

text \<open>The manager with its three components, and the file system it works on.\<close>

record state =
  dl :: downloader
  dm :: data_manager
  cm :: cache
  pstats :: processing_stats
  fs :: filesystem

definition new_state :: "clk \<Rightarrow> filesystem \<Rightarrow> state" where
  "new_state ck f =
     \<lparr> dl = new_downloader, dm = new_data_manager ck, cm = new_cache ck,
       pstats = new_processing_stats, fs = f \<rparr>"

text \<open>
  Reading a text file line by line (the line ends are \<^verbatim>\<open>\n\<close> and \<^verbatim>\<open>\r\<close>), and
  \<^verbatim>\<open>str.strip()\<close> on ASCII white space.
\<close>

fun split_lines :: "string \<Rightarrow> string \<Rightarrow> string list" where
  "split_lines [] cur = [rev cur]"
| "split_lines (c # cs) cur =
     (if c = CHR 0x0A \<or> c = CHR 0x0D then rev cur # split_lines cs []
      else split_lines cs (c # cur))"

definition is_space :: "char \<Rightarrow> bool" where
  "is_space c = (c \<in> {CHR 0x09, CHR 0x0A, CHR 0x0B, CHR 0x0C, CHR 0x0D,
                      CHR 0x1C, CHR 0x1D, CHR 0x1E, CHR 0x1F, CHR 0x20})"

definition strip :: "string \<Rightarrow> string" where
  "strip s = rev (dropWhile is_space (rev (dropWhile is_space s)))"

definition startswith :: "string \<Rightarrow> string \<Rightarrow> bool" where
  "startswith s p = (take (length p) s = p)"


definition load_collection_urls :: "config \<Rightarrow> string \<Rightarrow> filesystem \<Rightarrow> string list" where
  "load_collection_urls cfg name f =
     (case files f (MATERIALS_DIR cfg @ ''/'' @ name @ ''.txt'') of
        None \<Rightarrow> []
      | Some content \<Rightarrow>
          filter (\<lambda>url. url \<noteq> [] \<and> startswith url ''https://t.me/nft/'')
            (map strip (split_lines content [])))"


definition create_collection_stats ::
  "string \<Rightarrow> nat \<Rightarrow> nat \<Rightarrow> nat \<Rightarrow> nat \<Rightarrow> real \<Rightarrow> collection_stats" where
  "create_collection_stats name total_urls processed success errors duration =
     \<lparr> cs_collection_name = name,
       cs_total_urls = total_urls,
       cs_processed_urls = processed,
       cs_successful_parses = success,
       cs_failed_parses = errors,
       cs_success_rate = (if processed > 0 then (real success / real processed) * 100 else 0),
       cs_duration = duration,
       cs_urls_per_second = (if duration > 0 then real processed / duration else 0) \<rparr>"

text \<open>
  The body of \<^verbatim>\<open>for url, html_content, error in results\<close> up to the periodic save:
  what is done with one fetch result. The flag returned says whether the result counts
  as a success.
\<close>

definition ingest_result ::
  "env \<Rightarrow> config \<Rightarrow> clk \<Rightarrow> string \<Rightarrow> fetch_result \<Rightarrow> state \<Rightarrow> bool \<times> state" where
  "ingest_result ev cfg ck name r st =
     (case r of (url, html_content, error) \<Rightarrow>
        (case html_content of
           Some body \<Rightarrow>
             (case parse_gift_data ev body url of
                Some gift_data \<Rightarrow>
                  if gift_data \<noteq> Map.empty \<and> validate_gift_data ev gift_data then
                    (case add_gifts_to_collection ev cfg ck name [gift_data] (dm st, fs st) of
                       (n, m', f') \<Rightarrow>
                         (True,
                          st\<lparr> dm := m', fs := f',
                              cm := mark_url_processed ck url ''active''
                                      (Some [''gift_id'' \<mapsto> dict_get gift_data ''gift_id'',
                                             ''collection'' \<mapsto> VStr name])
                                      (cm st) \<rparr>))
                  else (False, st\<lparr>cm := mark_url_processed ck url ''parse_failed'' None (cm st)\<rparr>)
              | None \<Rightarrow> (False, st\<lparr>cm := mark_url_processed ck url ''parse_failed'' None (cm st)\<rparr>))
         | None \<Rightarrow>
             (False,
              st\<lparr>cm := mark_url_processed ck url
                          (if error = Some ''404 Not Found'' then ''deleted'' else ''error'')
                          (Some [''error'' \<mapsto> (case error of None \<Rightarrow> VNone | Some e \<Rightarrow> VStr e)])
                          (cm st)\<rparr>)))"

definition periodic_save :: "env \<Rightarrow> config \<Rightarrow> clk \<Rightarrow> string \<Rightarrow> state \<Rightarrow> state" where
  "periodic_save ev cfg ck name st =
     (case save_collection ev cfg ck name (dm st, fs st) of
        (ok, m', f') \<Rightarrow>
          (case save_cache ev cfg ck False (cm st, f') of
             (ok', c', f'') \<Rightarrow> st\<lparr>dm := m', cm := c', fs := f''\<rparr>))"

text \<open>
  The loop over the results with its three counters (processed, success, error). The
  \<open>k\<close>-th result is ingested at the clock reading \<open>clock k\<close>.
  \<^verbatim>\<open>processed_count % config.SAVE_INTERVAL\<close> raises when the interval is 0.
\<close>

fun ingest ::
  "env \<Rightarrow> config \<Rightarrow> (nat \<Rightarrow> clk) \<Rightarrow> string \<Rightarrow> fetch_result list \<Rightarrow> nat \<times> nat \<times> nat \<Rightarrow> state
     \<Rightarrow> exn option \<times> (nat \<times> nat \<times> nat) \<times> state" where
  "ingest ev cfg clock name [] counts st = (None, counts, st)"
| "ingest ev cfg clock name (r # rs) (processed_count, success_count, error_count) st =
     (let p1 = processed_count + 1;
          (ok, st1) = ingest_result ev cfg (clock p1) name r st;
          s1 = (if ok then success_count + 1 else success_count);
          e1 = (if ok then error_count else error_count + 1)
      in if SAVE_INTERVAL cfg = 0 then
           (Some (ZeroDivisionError ''integer modulo by zero''), (p1, s1, e1), st1)
         else
           ingest ev cfg clock name rs (p1, s1, e1)
             (if int p1 mod SAVE_INTERVAL cfg = 0 then periodic_save ev cfg (clock p1) name st1
              else st1))"

text \<open>
  \<^verbatim>\<open>process_collection\<close>. The start is read at \<open>clock 0\<close> and the final flush at the
  reading after the last result. In the early return for a fully processed collection
  the source passes \<^verbatim>\<open>skipped_count\<close> in the position of the error count.
\<close>

definition process_collection ::
  "env \<Rightarrow> config \<Rightarrow> (nat \<Rightarrow> clk) \<Rightarrow> string \<Rightarrow> bool \<Rightarrow> state \<Rightarrow> (exn + collection_stats) \<times> state" where
  "process_collection ev cfg clock name resume_mode st =
     (let start_time = time (clock 0);
          all_urls = load_collection_urls cfg name (fs st)
      in if all_urls = [] then (Inr (create_collection_stats name 0 0 0 0 0), st)
         else
           (let urls_to_process =
                  (if resume_mode then filter_unprocessed_urls (cm st) all_urls else all_urls);
                skipped_count = length all_urls - length urls_to_process
            in if urls_to_process = [] then
                 (Inr (create_collection_stats name (length all_urls) 0 0 skipped_count 0), st)
               else
                 (case download_with_batching cfg (net ev) urls_to_process (BATCH_SIZE cfg) (dl st) of
                    (Inl e, d') \<Rightarrow> (Inl e, st\<lparr>dl := d'\<rparr>)
                  | (Inr results, d') \<Rightarrow>
                      (case ingest ev cfg clock name results (0, 0, 0) (st\<lparr>dl := d'\<rparr>) of
                         (Some e, counts, st1) \<Rightarrow> (Inl e, st1)
                       | (None, (processed_count, success_count, error_count), st1) \<Rightarrow>
                           (let ck = clock (Suc processed_count);
                                st2 = periodic_save ev cfg ck name st1;
                                st3 = st2\<lparr>cm := update_collection_progress ck name (length all_urls)
                                              processed_count success_count error_count (cm st2)\<rparr>
                            in (Inr (create_collection_stats name (length all_urls) processed_count
                                       success_count error_count (time ck - start_time)),
                                st3))))))"







section \<open>Example environments\<close>

text \<open>Concrete networks, configurations and states on which the theorems are instantiated.\<close>

definition example_url :: string where
  "example_url = ''https://t.me/nft/lightsword-1''"


definition net_timeouts_then_ok :: "string \<Rightarrow> nat \<Rightarrow> response" where
  "net_timeouts_then_ok url n = (if n < 3 then Timeout else Status 200 ''<html>'')"



definition clock0 :: clk where
  "clock0 = \<lparr> time = 0, utcnow = ''2024-01-01T00:00:00'' \<rparr>"

definition clock1 :: clk where
  "clock1 = \<lparr> time = 1, utcnow = ''2024-01-01T00:00:01'' \<rparr>"

definition example_gift :: gift where
  "example_gift =
     [''url'' \<mapsto> VStr ''https://t.me/nft/lightsword-1'', ''gift_id'' \<mapsto> VStr ''lightsword-1'',
      ''collection'' \<mapsto> VStr ''lightsword'', ''status'' \<mapsto> VStr ''active'']"

definition example_env :: env where
  "example_env =
     \<lparr> net = net_timeouts_then_ok,
       parse_gift_data = (\<lambda>body url. if body = ''<html>'' then Some example_gift else None),
       url_has_scheme_and_netloc = (\<lambda>u. startswith u ''https://''),
       dumps_collection = (\<lambda>c. ''{\"collection_name\": \"'' @ collection_name c @ ''\"}''),
       loads_collection = (\<lambda>s. None),
       dumps_url_status = (\<lambda>m. ''{}''),
       dumps_progress = (\<lambda>m. ''{}'') \<rparr>"

definition empty_filesystem :: filesystem where
  "empty_filesystem = \<lparr> files = Map.empty, denied = (\<lambda>p. False) \<rparr>"

definition materials_filesystem :: filesystem where
  "materials_filesystem =
     \<lparr> files = [''/app/materials/lightsword.txt'' \<mapsto> ''https://t.me/nft/lightsword-1'' @ [CHR 0x0A],
                ''/app/materials/file_list.txt'' \<mapsto> ''lightsword.txt'' @ [CHR 0x0A]],
       denied = (\<lambda>p. False) \<rparr>"

definition changed_gift :: gift where
  "changed_gift = example_gift(''status'' \<mapsto> VStr ''deleted'')"


definition processed_state :: state where
  "processed_state =
     (new_state clock0 materials_filesystem)
       \<lparr>cm := mark_url_processed clock0 example_url ''active'' None (new_cache clock0)\<rparr>"

definition old_filesystem :: filesystem where
  "old_filesystem =
     \<lparr> files = [''/app/output/collections/lightsword.json'' \<mapsto> ''old''],
       denied = (\<lambda>p. False) \<rparr>"

definition example_data_manager :: data_manager where
  "example_data_manager =
     \<lparr> collections_cache = [(''lightsword'', create_empty_collection clock0 ''lightsword'')],
       dm_last_save_time = 0 \<rparr>"

definition stale_collection :: collection where
  "stale_collection =
     \<lparr> collection_name = ''lightsword'', total_gifts = 5, processed_gifts = 0,
       last_updated = ''2023-12-31T00:00:00Z'', created_at = ''2023-12-31T00:00:00Z'',
       gifts = [] \<rparr>"

definition stale_env :: env where
  "stale_env = example_env\<lparr>loads_collection := (\<lambda>s. if s = ''old'' then Some stale_collection else None)\<rparr>"

definition deleted_collection :: collection where
  "deleted_collection =
     \<lparr> collection_name = ''lightsword'', total_gifts = 1, processed_gifts = 0,
       last_updated = ''2024-01-01T00:00:00Z'', created_at = ''2024-01-01T00:00:00Z'',
       gifts = [changed_gift] \<rparr>"

definition deleted_data_manager :: data_manager where
  "deleted_data_manager =
     \<lparr> collections_cache = [(''lightsword'', deleted_collection)], dm_last_save_time = 0 \<rparr>"





section \<open>The retry policy of the downloader\<close>












section \<open>One result for every URL handed to the downloader\<close>









section \<open>The dirty flag of the cache\<close>

text \<open>
  C8. With the dirty flag false and no force, \<^verbatim>\<open>save_cache\<close> returns \<^verbatim>\<open>True\<close> and
  leaves the cache and every file as they were. \<^verbatim>\<open>mark_url_processed\<close> always sets the
  dirty flag. A save that does write and succeeds clears the flag and sets
  \<^verbatim>\<open>last_save_time\<close> to the time of the save, changing nothing else of the cache; a save
  that fails leaves the cache as it was.
\<close>

theorem save_cache_dirty_flag:
  "(\<not> cache_dirty c \<and> \<not> force \<longrightarrow> save_cache ev cfg ck force (c, f) = (True, c, f)) \<and>
   cache_dirty (mark_url_processed ck' url st meta c) \<and>
   ((cache_dirty c \<or> force) \<and> fst (save_cache ev cfg ck force (c, f)) \<longrightarrow>
      fst (snd (save_cache ev cfg ck force (c, f))) = c\<lparr>cache_dirty := False, last_save_time := utcnow ck\<rparr>) \<and>
   (\<not> fst (save_cache ev cfg ck force (c, f)) \<longrightarrow> fst (snd (save_cache ev cfg ck force (c, f))) = c)"
  by (auto simp: save_cache_def mark_url_processed_def split: option.splits)

theorem save_cache_dirty_flag_witness:
  "\<not> cache_dirty (new_cache clock0) \<and>
   save_cache example_env default_config clock1 False (new_cache clock0, empty_filesystem)
     = (True, new_cache clock0, empty_filesystem) \<and>
   cache_dirty (mark_url_processed clock0 example_url ''active'' None (new_cache clock0)) \<and>
   fst (save_cache example_env default_config clock1 False
          (mark_url_processed clock0 example_url ''active'' None (new_cache clock0), empty_filesystem)) \<and>
   fst (snd (save_cache example_env default_config clock1 False
          (mark_url_processed clock0 example_url ''active'' None (new_cache clock0), empty_filesystem)))
     = (mark_url_processed clock0 example_url ''active'' None (new_cache clock0))
         \<lparr>cache_dirty := False, last_save_time := utcnow clock1\<rparr>"
proof -
  let ?c = "mark_url_processed clock0 example_url ''active'' None (new_cache clock0)"
  have a: "\<not> cache_dirty (new_cache clock0)" by (simp add: new_cache_def)
  have b: "cache_dirty ?c" by (simp add: mark_url_processed_def)
  have c: "fst (save_cache example_env default_config clock1 False (?c, empty_filesystem))"
    by (simp add: save_cache_def fs_write_def empty_filesystem_def)
  from save_cache_dirty_flag[of "new_cache clock0" False example_env default_config clock1
      empty_filesystem clock0 example_url "''active''" None] a
  have d: "save_cache example_env default_config clock1 False (new_cache clock0, empty_filesystem)
     = (True, new_cache clock0, empty_filesystem)" by simp
  from save_cache_dirty_flag[of ?c False example_env default_config clock1
      empty_filesystem clock0 example_url "''active''" None] b c
  have "fst (snd (save_cache example_env default_config clock1 False (?c, empty_filesystem)))
     = ?c\<lparr>cache_dirty := False, last_save_time := utcnow clock1\<rparr>" by simp
  with a b c d show ?thesis by simp
qed

section \<open>Upserting records into a collection\<close>
















section \<open>Ingesting one fetch result\<close>

lemma save_collection_cached:
  assumes "map_of (collections_cache m) name = Some c"
  shows "map_of (collections_cache (fst (snd (save_collection ev cfg ck name (m, f))))) name
           = Some (stamp_collection ck c)"
  using assms by (simp add: save_collection_def Let_def update_conv' split: option.splits)

lemma load_collection_cached:
  "map_of (collections_cache (snd (load_collection ev cfg ck name (m, f)))) name
     = Some (fst (load_collection ev cfg ck name (m, f)))"
  by (simp add: load_collection_def Let_def update_conv' split: option.splits)








section \<open>Resuming a processed collection\<close>

lemma example_collection_urls: "load_collection_urls default_config ''lightsword'' materials_filesystem = [example_url]"
  by (simp add: load_collection_urls_def default_config_def materials_filesystem_def strip_def is_space_def startswith_def example_url_def)

text \<open>
  C5. When every URL of the collection is in the processed set, \<^verbatim>\<open>process_collection\<close>
  with \<^verbatim>\<open>resume_mode\<close> true returns statistics with \<^verbatim>\<open>processed_urls = 0\<close> and leaves
  the whole state as it was: the downloader is not called and its request counter does
  not move. \<^verbatim>\<open>filter_unprocessed_urls\<close> keeps, in order, exactly the URLs that are not in
  the processed set.
\<close>

theorem resume_on_processed_collection:
  "((\<forall>url \<in> set (load_collection_urls cfg name (fs st)). is_url_processed (cm st) url) \<longrightarrow>
     (\<exists>cs. process_collection ev cfg clock name True st = (Inr cs, st) \<and> cs_processed_urls cs = 0) \<and>
     total_requests (dl (snd (process_collection ev cfg clock name True st))) = total_requests (dl st)) \<and>
   filter_unprocessed_urls c urls = filter (\<lambda>url. url \<notin> processed_urls c) urls"
  by (auto simp: process_collection_def Let_def filter_unprocessed_urls_def is_url_processed_def
      create_collection_stats_def filter_empty_conv)

theorem resume_on_processed_collection_witness:
  "load_collection_urls default_config ''lightsword'' (fs processed_state) = [example_url] \<and>
   is_url_processed (cm processed_state) example_url \<and>
   (\<exists>cs. process_collection example_env default_config (\<lambda>k. clock1) ''lightsword'' True processed_state
           = (Inr cs, processed_state) \<and> cs_processed_urls cs = 0) \<and>
   total_requests (dl (snd (process_collection example_env default_config (\<lambda>k. clock1) ''lightsword''
                              True processed_state))) = 0"
proof -
  have f: "fs processed_state = materials_filesystem"
    by (simp add: processed_state_def new_state_def)
  have u: "load_collection_urls default_config ''lightsword'' (fs processed_state) = [example_url]"
    unfolding f by (rule example_collection_urls)
  have p: "is_url_processed (cm processed_state) example_url"
    by (simp add: processed_state_def is_url_processed_def mark_url_processed_def)
  have t: "total_requests (dl processed_state) = 0"
    by (simp add: processed_state_def new_state_def new_downloader_def)
  from resume_on_processed_collection[of default_config "''lightsword''" processed_state
      example_env "\<lambda>k. clock1"] u p t
  show ?thesis by simp
qed

section \<open>Saving a collection through a temporary file\<close>

lemma path_parent_dropWhile:
  "path_parent p = rev (dropWhile (\<lambda>c. c \<noteq> CHR ''/'') (rev p))"
proof -
  let ?P = "\<lambda>c. c \<noteq> CHR ''/''"
  have "rev p = takeWhile ?P (rev p) @ dropWhile ?P (rev p)" by simp
  then have "p = rev (dropWhile ?P (rev p)) @ rev (takeWhile ?P (rev p))"
    by (metis rev_append rev_rev_ident)
  moreover have "length p - length (path_name p) = length (rev (dropWhile ?P (rev p)))"
  proof -
    have "length (rev p) = length (takeWhile ?P (rev p)) + length (dropWhile ?P (rev p))"
      by (metis length_append takeWhile_dropWhile_id)
    then show ?thesis by (simp add: path_name_def)
  qed
  ultimately show ?thesis unfolding path_parent_def
    by (metis append_eq_conv_conj)
qed

lemma path_of_parent_and_name:
  assumes "CHR ''/'' \<notin> set n"
  shows "path_name (path_parent p @ n) = n" and "path_parent (path_parent p @ n) = path_parent p"
proof -
  let ?P = "\<lambda>c. c \<noteq> CHR ''/''"
  let ?ys = "dropWhile ?P (rev p)"
  have r: "rev (path_parent p @ n) = rev n @ ?ys" by (simp add: path_parent_dropWhile)
  have all: "\<forall>c \<in> set (rev n). ?P c" using assms by auto
  have ys: "takeWhile ?P ?ys = []" "dropWhile ?P ?ys = ?ys"
  proof -
    show "takeWhile ?P ?ys = []"
    proof (cases "?ys = []")
      case True
      show ?thesis unfolding True by simp
    next
      case False
      from hd_dropWhile[OF this] False show ?thesis by (cases ?ys) auto
    qed
    show "dropWhile ?P ?ys = ?ys" by (rule dropWhile_idem)
  qed
  have "takeWhile ?P (rev n @ ?ys) = rev n @ takeWhile ?P ?ys"
    by (rule takeWhile_append2) (use assms in auto)
  with ys r show "path_name (path_parent p @ n) = n" by (simp add: path_name_def)
  have "dropWhile ?P (rev n @ ?ys) = dropWhile ?P ?ys"
    by (rule dropWhile_append2) (use assms in auto)
  with ys r show "path_parent (path_parent p @ n) = path_parent p"
    by (simp add: path_parent_dropWhile)
qed

lemma path_name_no_slash: "CHR ''/'' \<notin> set (path_name p)"
proof
  assume "CHR ''/'' \<in> set (path_name p)"
  then have "CHR ''/'' \<in> set (takeWhile (\<lambda>c. c \<noteq> CHR ''/'') (rev p))" by (simp add: path_name_def)
  then show False by (auto dest: set_takeWhileD)
qed

lemma with_suffix_parent:
  assumes "CHR ''/'' \<notin> set s"
  shows "path_parent (with_suffix p s) = path_parent p"
proof -
  let ?n = "path_name p"
  have "CHR ''/'' \<notin> set (take (length ?n - length (name_suffix ?n)) ?n @ s)"
    using assms path_name_no_slash[of p] by (auto dest: in_set_takeD)
  from path_of_parent_and_name(2)[OF this, of p] show ?thesis
    by (simp add: with_suffix_def Let_def)
qed

lemma temp_file_parent: "path_parent (temp_file cfg name) = path_parent (collection_file cfg name)"
  unfolding temp_file_def by (rule with_suffix_parent) simp

lemma temp_file_last: "last (temp_file cfg name) = CHR ''p''"
  by (simp add: temp_file_def with_suffix_def Let_def)

lemma temp_file_neq: "temp_file cfg name \<noteq> collection_file cfg name"
proof
  assume "temp_file cfg name = collection_file cfg name"
  then have "last (temp_file cfg name) = last (collection_file cfg name)" by simp
  then show False by (simp add: temp_file_last collection_file_def)
qed

lemma backup_file_neq: "backup_file cfg name \<noteq> collection_file cfg name"
proof
  assume "backup_file cfg name = collection_file cfg name"
  then have "length (backup_file cfg name) = length (collection_file cfg name)" by simp
  then show False by (simp add: backup_file_def collection_file_def)
qed

lemma backup_step_keeps:
  assumes "backup_step cfg name f = Some f1"
  shows "files f1 (collection_file cfg name) = files f (collection_file cfg name)"
    and "denied f1 = denied f"
  using assms backup_file_neq[of cfg name]
  by (auto simp: backup_step_def fs_copy_def fs_write_def split: if_splits option.splits)

lemma save_collection_trace:
  fixes ev :: env and cfg :: config and ck :: clk and f :: filesystem
  assumes c: "map_of (collections_cache m) name = Some c"
  defines "states \<equiv> save_collection_fs_states ev cfg ck name (m, f)"
    and "content \<equiv> dumps_collection ev (stamp_collection ck c)"
    and "tgt \<equiv> collection_file cfg name"
    and "tmp \<equiv> temp_file cfg name"
  shows "snd (snd (save_collection ev cfg ck name (m, f))) = last states"
    and "\<forall>s \<in> set (butlast states). files s tgt = files f tgt"
    and "fst (save_collection ev cfg ck name (m, f)) \<Longrightarrow>
           files (last (butlast states)) tmp = Some content \<and> files (last states) tgt = Some content"
    and "\<not> fst (save_collection ev cfg ck name (m, f)) \<Longrightarrow> files (last states) tgt = files f tgt"
proof -
  have ne: "tmp \<noteq> tgt" unfolding tmp_def tgt_def by (rule temp_file_neq)
  let ?w = "\<lambda>f1 j. f1\<lparr>files := (files f1)(tmp \<mapsto> take j content)\<rparr>"
  have lastw: "last (map (?w f1) [0 ..< Suc (length content)]) = ?w f1 (length content)" for f1
    by simp
  have all:
    "snd (snd (save_collection ev cfg ck name (m, f))) = last states \<and>
     (\<forall>s \<in> set (butlast states). files s tgt = files f tgt) \<and>
     (fst (save_collection ev cfg ck name (m, f)) \<longrightarrow>
        files (last (butlast states)) tmp = Some content \<and> files (last states) tgt = Some content) \<and>
     (\<not> fst (save_collection ev cfg ck name (m, f)) \<longrightarrow> files (last states) tgt = files f tgt)"
  proof (cases "backup_step cfg name f")
    case None
    then show ?thesis using c
      by (simp add: save_collection_def save_collection_fs_states_def states_def Let_def)
  next
    case (Some f1)
    note k = backup_step_keeps[OF Some, folded tgt_def]
    show ?thesis
    proof (cases "denied f1 tmp")
      case True
      then show ?thesis using c Some k
        by (simp add: save_collection_def save_collection_fs_states_def states_def Let_def
            fs_write_def tmp_def[symmetric] tgt_def[symmetric])
    next
      case False
      let ?f2 = "f1\<lparr>files := (files f1)(tmp \<mapsto> content)\<rparr>"
      have w: "fs_write tmp content f1 = Some ?f2" using False by (simp add: fs_write_def)
      have st: "states = [f, f1] @ map (?w f1) [0 ..< Suc (length content)]
                  @ (case fs_rename tmp tgt ?f2 of None \<Rightarrow> [] | Some f3 \<Rightarrow> [f3])"
        using c Some False
        by (simp add: save_collection_fs_states_def states_def Let_def content_def tmp_def tgt_def)
      have old: "\<forall>s \<in> set ([f, f1] @ map (?w f1) [0 ..< Suc (length content)]). files s tgt = files f tgt"
        using k ne by auto
      show ?thesis
      proof (cases "denied f1 tgt")
        case True
        then have rn: "fs_rename tmp tgt ?f2 = None" by (simp add: fs_rename_def)
        have sv: "save_collection ev cfg ck name (m, f)
                    = (False, m\<lparr>collections_cache := AList.update name (stamp_collection ck c) (collections_cache m)\<rparr>, ?f2)"
          using c Some w rn
          by (simp add: save_collection_def Let_def content_def tmp_def tgt_def)
        have l: "last states = ?f2" unfolding st rn by (simp del: upt_Suc map_append add: lastw)
        have "states = [f, f1] @ map (?w f1) [0 ..< Suc (length content)]"
          unfolding st rn by simp
        moreover have "set (butlast states) \<subseteq> set states" by (auto dest: in_set_butlastD)
        ultimately have b: "set (butlast states) \<subseteq> set ([f, f1] @ map (?w f1) [0 ..< Suc (length content)])"
          by simp
        from sv l b old k ne show ?thesis by auto
      next
        case False
        let ?f3 = "?f2\<lparr>files := ((files ?f2)(tgt \<mapsto> content))(tmp := None)\<rparr>"
        have rn: "fs_rename tmp tgt ?f2 = Some ?f3" using False by (simp add: fs_rename_def)
        have sv: "save_collection ev cfg ck name (m, f)
                    = (True, m\<lparr>collections_cache := AList.update name (stamp_collection ck c) (collections_cache m),
                                dm_last_save_time := time ck\<rparr>, ?f3)"
          using c Some w rn
          by (simp add: save_collection_def Let_def content_def tmp_def tgt_def)
        have st': "states = ([f, f1] @ map (?w f1) [0 ..< Suc (length content)]) @ [?f3]"
          unfolding st rn by simp
        have l: "last states = ?f3" unfolding st' by (simp del: upt_Suc)
        have b: "butlast states = [f, f1] @ map (?w f1) [0 ..< Suc (length content)]"
          unfolding st' by (simp only: butlast_snoc)
        have lb: "last (butlast states) = ?f2"
          unfolding b by (simp del: upt_Suc map_append add: lastw)
        from sv l b lb old ne show ?thesis by (simp del: upt_Suc)
      qed
    qed
  qed
  from all show "snd (snd (save_collection ev cfg ck name (m, f))) = last states"
    and "\<forall>s \<in> set (butlast states). files s tgt = files f tgt"
    and "fst (save_collection ev cfg ck name (m, f)) \<Longrightarrow>
           files (last (butlast states)) tmp = Some content \<and> files (last states) tgt = Some content"
    and "\<not> fst (save_collection ev cfg ck name (m, f)) \<Longrightarrow> files (last states) tgt = files f tgt"
    by blast+
qed

lemma save_collection_fs_states_written:
  assumes "map_of (collections_cache m) name = Some c"
    and "backup_step cfg name f = Some f1"
    and "\<not> denied f1 (temp_file cfg name)"
  shows "save_collection_fs_states ev cfg ck name (m, f) =
     [f, f1]
     @ map (\<lambda>j. f1\<lparr>files := (files f1)(temp_file cfg name \<mapsto>
                       take j (dumps_collection ev (stamp_collection ck c)))\<rparr>)
         [0 ..< Suc (length (dumps_collection ev (stamp_collection ck c)))]
     @ (case fs_rename (temp_file cfg name) (collection_file cfg name)
               (f1\<lparr>files := (files f1)(temp_file cfg name \<mapsto>
                      dumps_collection ev (stamp_collection ck c))\<rparr>) of
          None \<Rightarrow> []
        | Some f3 \<Rightarrow> [f3])"
  using assms by (simp add: save_collection_fs_states_def Let_def del: upt_Suc)

lemma example_paths:
  "collection_file default_config ''lightsword'' = ''/app/output/collections/lightsword.json''"
  "temp_file default_config ''lightsword'' = ''/app/output/collections/lightsword.tmp''"
  "backup_file default_config ''lightsword'' = ''/app/output/collections/lightsword.json.backup''"
  by (simp_all add: collection_file_def temp_file_def backup_file_def default_config_def
      with_suffix_def path_name_def path_parent_def name_suffix_def Let_def)

lemma example_save:
  "save_collection example_env default_config clock1 ''lightsword'' (example_data_manager, old_filesystem)
     = (True,
        \<lparr> collections_cache = [(''lightsword'', stamp_collection clock1 (create_empty_collection clock0 ''lightsword''))],
          dm_last_save_time = 1 \<rparr>,
        \<lparr> files = [''/app/output/collections/lightsword.json.backup'' \<mapsto> ''old'',
                   ''/app/output/collections/lightsword.json'' \<mapsto> ''{\"collection_name\": \"lightsword\"}''],
          denied = (\<lambda>p. False) \<rparr>)"
  apply (simp add: save_collection_def example_data_manager_def old_filesystem_def example_paths
      backup_step_def fs_exists_def fs_copy_def fs_write_def fs_rename_def Let_def)
  apply (simp add: default_config_def clock1_def example_env_def stamp_collection_def create_empty_collection_def)
  done

text \<open>
  C6. A save of a cached collection writes the full JSON text of the collection to
  \<^verbatim>\<open>temp_file\<close>, a path other than the collection file and in the same directory, and
  renames it over the collection file as its last step. In every file-system state the
  save passes through before that last step (with the temporary file cut after any
  number of characters) the collection file holds what it held before the save. When
  the save succeeds, the state before the rename has the whole text in the temporary
  file and the state after it has the whole text in the collection file; when it fails,
  the collection file still holds what it held before.
\<close>

theorem save_collection_atomic:
  "(case map_of (collections_cache m) name of
      None \<Rightarrow> save_collection ev cfg ck name (m, f) = (False, m, f)
    | Some c \<Rightarrow>
        (let states = save_collection_fs_states ev cfg ck name (m, f);
             content = dumps_collection ev (stamp_collection ck c)
         in temp_file cfg name \<noteq> collection_file cfg name \<and>
            path_parent (temp_file cfg name) = path_parent (collection_file cfg name) \<and>
            snd (snd (save_collection ev cfg ck name (m, f))) = last states \<and>
            (\<forall>s \<in> set (butlast states).
               files s (collection_file cfg name) = files f (collection_file cfg name)) \<and>
            (if fst (save_collection ev cfg ck name (m, f))
             then files (last (butlast states)) (temp_file cfg name) = Some content \<and>
                  files (last states) (collection_file cfg name) = Some content
             else files (last states) (collection_file cfg name) = files f (collection_file cfg name))))"
proof (cases "map_of (collections_cache m) name")
  case None
  then show ?thesis by (simp add: save_collection_def)
next
  case (Some c)
  from save_collection_trace[OF Some, of ev cfg ck f] temp_file_neq[of cfg name] temp_file_parent[of cfg name]
  show ?thesis unfolding Some option.case Let_def
    by (cases "fst (save_collection ev cfg ck name (m, f))") simp_all
qed

theorem save_collection_atomic_witness:
  "map_of (collections_cache example_data_manager) ''lightsword''
     = Some (create_empty_collection clock0 ''lightsword'') \<and>
   temp_file default_config ''lightsword'' = ''/app/output/collections/lightsword.tmp'' \<and>
   fst (save_collection example_env default_config clock1 ''lightsword'' (example_data_manager, old_filesystem)) \<and>
   old_filesystem\<lparr>files := (files old_filesystem)
       (''/app/output/collections/lightsword.json.backup'' \<mapsto> ''old'',
        ''/app/output/collections/lightsword.tmp'' \<mapsto> ''{\"collection'')\<rparr>
     \<in> set (butlast (save_collection_fs_states example_env default_config clock1 ''lightsword''
                        (example_data_manager, old_filesystem))) \<and>
   files (old_filesystem\<lparr>files := (files old_filesystem)
       (''/app/output/collections/lightsword.json.backup'' \<mapsto> ''old'',
        ''/app/output/collections/lightsword.tmp'' \<mapsto> ''{\"collection'')\<rparr>)
     ''/app/output/collections/lightsword.json'' = Some ''old'' \<and>
   files (snd (snd (save_collection example_env default_config clock1 ''lightsword''
                      (example_data_manager, old_filesystem))))
     ''/app/output/collections/lightsword.json'' = Some ''{\"collection_name\": \"lightsword\"}''"
proof -
  let ?tgt = "''/app/output/collections/lightsword.json''"
  let ?tmp = "''/app/output/collections/lightsword.tmp''"
  let ?states = "save_collection_fs_states example_env default_config clock1 ''lightsword''
                        (example_data_manager, old_filesystem)"
  let ?f1 = "old_filesystem\<lparr>files := (files old_filesystem)
       (''/app/output/collections/lightsword.json.backup'' \<mapsto> ''old'')\<rparr>"
  let ?content = "''{\"collection_name\": \"lightsword\"}''"
  let ?w = "\<lambda>j. ?f1\<lparr>files := (files ?f1)(?tmp \<mapsto> take j ?content)\<rparr>"
  let ?f3 = "?f1\<lparr>files := ((files ?f1)(?tgt \<mapsto> ?content))(?tmp := None)\<rparr>"
  have c: "map_of (collections_cache example_data_manager) ''lightsword''
     = Some (create_empty_collection clock0 ''lightsword'')"
    by (simp add: example_data_manager_def)
  have ok: "fst (save_collection example_env default_config clock1 ''lightsword'' (example_data_manager, old_filesystem))"
    by (simp add: example_save)
  have content: "dumps_collection example_env (stamp_collection clock1 (create_empty_collection clock0 ''lightsword'')) = ?content"
    by (simp add: example_env_def stamp_collection_def create_empty_collection_def)
  have ab: "AUTO_BACKUP default_config" by (simp add: default_config_def)
  have old: "files old_filesystem ?tgt = Some ''old''" "\<And>p. \<not> denied old_filesystem p"
    by (simp_all add: old_filesystem_def)
  have bs: "backup_step default_config ''lightsword'' old_filesystem = Some ?f1"
    by (simp add: backup_step_def fs_exists_def fs_copy_def fs_write_def example_paths old ab)
  have nd: "\<not> denied ?f1 (temp_file default_config ''lightsword'')" by (simp add: old)
  have rn: "fs_rename ?tmp ?tgt (?f1\<lparr>files := (files ?f1)(?tmp \<mapsto> ?content)\<rparr>) = Some ?f3"
    by (simp add: fs_rename_def old)
  have "?states = ([?f1\<lparr>files := files old_filesystem\<rparr>, ?f1] @ map ?w [0 ..< Suc (length ?content)]) @ [?f3]"
    unfolding save_collection_fs_states_written[OF c bs nd] content example_paths rn
    by (simp del: upt_Suc)
  then have st: "butlast ?states = [?f1\<lparr>files := files old_filesystem\<rparr>, ?f1] @ map ?w [0 ..< Suc (length ?content)]"
    by (simp only: butlast_snoc)
  have "12 \<in> set [0 ..< Suc (length ?content)]" by simp
  then have "?w 12 \<in> ?w ` set [0 ..< Suc (length ?content)]" by (rule imageI[where f="?w"])
  then have "?w 12 \<in> set (map ?w [0 ..< Suc (length ?content)])" by (simp only: set_map)
  then have "?w 12 \<in> set (butlast ?states)" unfolding st by (simp only: set_append UnI2)
  moreover have "?w 12 = old_filesystem\<lparr>files := (files old_filesystem)
       (''/app/output/collections/lightsword.json.backup'' \<mapsto> ''old'', ?tmp \<mapsto> ''{\"collection'')\<rparr>"
    by simp
  ultimately have mem: "old_filesystem\<lparr>files := (files old_filesystem)
       (''/app/output/collections/lightsword.json.backup'' \<mapsto> ''old'', ?tmp \<mapsto> ''{\"collection'')\<rparr>
       \<in> set (butlast ?states)" by simp
  from save_collection_atomic[where m=example_data_manager and name="''lightsword''" and ev=example_env
      and cfg=default_config and ck=clock1 and f=old_filesystem]
  have all: "\<forall>s \<in> set (butlast ?states). files s ?tgt = files old_filesystem ?tgt"
    and fin: "files (last ?states) ?tgt = Some ?content"
    and lst: "snd (snd (save_collection example_env default_config clock1 ''lightsword''
                      (example_data_manager, old_filesystem))) = last ?states"
    unfolding c option.case Let_def using ok by (simp_all add: example_paths content)
  from all mem old(1) have "files (old_filesystem\<lparr>files := (files old_filesystem)
       (''/app/output/collections/lightsword.json.backup'' \<mapsto> ''old'', ?tmp \<mapsto> ''{\"collection'')\<rparr>) ?tgt = Some ''old''"
    by (simp only:)
  with c ok mem fin lst example_paths(2) show ?thesis by (simp only: simp_thms)
qed

section \<open>The counter of processed gifts\<close>

lemma load_collection_last_save:
  "dm_last_save_time (snd (load_collection ev cfg ck name (m, f))) = dm_last_save_time m"
  by (simp add: load_collection_def Let_def split: option.splits)

lemma add_gifts_cached:
  assumes "gs \<noteq> []"
  shows "\<exists>c'. map_of (collections_cache (fst (snd (add_gifts_to_collection ev cfg ck name gs (m, f))))) name = Some c'
           \<and> total_gifts c' = length (gifts c')
           \<and> processed_gifts c' =
               (if time ck - dm_last_save_time m > 30 then length (gifts c')
                else length (filter (\<lambda>g. dict_get g ''status'' = VStr ''active'') (gifts c')))"
proof -
  obtain c0 m1 where l: "load_collection ev cfg ck name (m, f) = (c0, m1)"
    by (cases "load_collection ev cfg ck name (m, f)")
  have t: "dm_last_save_time m1 = dm_last_save_time m"
    using load_collection_last_save[of ev cfg ck name m f] l by simp
  obtain stored ids a u where s:
    "upsert_loop (utcnow ck @ ''Z'') gs
       (gifts c0, set (map (\<lambda>g. dict_get g ''gift_id'') (gifts c0)), 0, 0) = (stored, ids, a, u)"
    by (cases "upsert_loop (utcnow ck @ ''Z'') gs
       (gifts c0, set (map (\<lambda>g. dict_get g ''gift_id'') (gifts c0)), 0, 0)")
  let ?c' = "c0\<lparr> gifts := stored, total_gifts := length stored,
                 processed_gifts := length (filter (\<lambda>g. dict_get g ''status'' = VStr ''active'') stored) \<rparr>"
  let ?m2 = "m1\<lparr>collections_cache := AList.update name ?c' (collections_cache m1)\<rparr>"
  have m2: "map_of (collections_cache ?m2) name = Some ?c'" by (simp add: update_conv')
  show ?thesis
  proof (cases "time ck - dm_last_save_time m > 30")
    case True
    have "fst (snd (add_gifts_to_collection ev cfg ck name gs (m, f)))
            = fst (snd (save_collection ev cfg ck name (?m2, f)))"
      using l s True t assms by (simp add: add_gifts_to_collection_def Let_def split: prod.splits)
    with save_collection_cached[OF m2, of ev cfg ck f] True show ?thesis
      by (simp add: stamp_collection_def)
  next
    case False
    have "fst (snd (add_gifts_to_collection ev cfg ck name gs (m, f))) = ?m2"
      using l s False t assms by (simp add: add_gifts_to_collection_def Let_def)
    with m2 False show ?thesis by simp
  qed
qed

lemma changed_gift_fields:
  "dict_get changed_gift ''gift_id'' = VStr ''lightsword-1''"
  "dict_get changed_gift ''status'' = VStr ''deleted''"
  by (simp_all add: changed_gift_def example_gift_def dict_get_def)

lemma example_add_deleted:
  "add_gifts_to_collection example_env default_config clock0 ''lightsword'' [changed_gift]
       (new_data_manager clock0, empty_filesystem)
     = (1, deleted_data_manager, empty_filesystem)"
  by (simp add: add_gifts_to_collection_def load_collection_def new_data_manager_def
      empty_filesystem_def upsert_loop_def upsert_step_def changed_gift_fields
      create_empty_collection_def clock0_def deleted_data_manager_def deleted_collection_def Let_def)

text \<open>
  C10, as the claim states it, fails: a collection file whose \<^verbatim>\<open>total_gifts\<close> is not
  the number of its records (5 for an empty list here), once loaded and saved, is
  persisted with \<^verbatim>\<open>processed_gifts = 0\<close> and \<^verbatim>\<open>total_gifts = 5\<close>: the save sets
  \<^verbatim>\<open>processed_gifts\<close> and leaves \<^verbatim>\<open>total_gifts\<close> as loaded.
\<close>

theorem stale_total_survives_save:
  "fst (save_collection stale_env default_config clock1 ''lightsword''
          (snd (load_collection stale_env default_config clock0 ''lightsword''
                  (new_data_manager clock0, old_filesystem)), old_filesystem)) \<and>
   files (snd (snd (save_collection stale_env default_config clock1 ''lightsword''
          (snd (load_collection stale_env default_config clock0 ''lightsword''
                  (new_data_manager clock0, old_filesystem)), old_filesystem))))
       ''/app/output/collections/lightsword.json''
     = Some (dumps_collection stale_env
               (stale_collection\<lparr>last_updated := ''2024-01-01T00:00:01Z'', processed_gifts := 0\<rparr>)) \<and>
   processed_gifts (stale_collection\<lparr>last_updated := ''2024-01-01T00:00:01Z'', processed_gifts := 0\<rparr>) = 0 \<and>
   total_gifts (stale_collection\<lparr>last_updated := ''2024-01-01T00:00:01Z'', processed_gifts := 0\<rparr>) = 5"
proof -
  have l: "snd (load_collection stale_env default_config clock0 ''lightsword''
                  (new_data_manager clock0, old_filesystem))
             = \<lparr> collections_cache = [(''lightsword'', stale_collection)], dm_last_save_time = 0 \<rparr>"
    by (simp add: load_collection_def new_data_manager_def example_paths old_filesystem_def
        stale_env_def clock0_def Let_def)
  have ab: "AUTO_BACKUP default_config" by (simp add: default_config_def)
  have st: "stamp_collection clock1 stale_collection
              = stale_collection\<lparr>last_updated := ''2024-01-01T00:00:01Z'', processed_gifts := 0\<rparr>"
    by (simp add: stamp_collection_def clock1_def stale_collection_def)
  show ?thesis
    unfolding l
    by (simp add: save_collection_def example_paths backup_step_def fs_exists_def fs_copy_def
        fs_write_def fs_rename_def old_filesystem_def ab st Let_def)
       (simp add: stale_collection_def)
qed

text \<open>
  C10 (amended). After a successful save of a cached collection, the cached collection
  and the persisted file are the collection stamped by the save: its records and its
  \<^verbatim>\<open>total_gifts\<close> are unchanged and its \<^verbatim>\<open>processed_gifts\<close> is the number of all its
  records, whatever their statuses. So the persisted file has \<^verbatim>\<open>processed_gifts\<close> equal
  to \<^verbatim>\<open>total_gifts\<close> whenever \<^verbatim>\<open>total_gifts\<close> is the number of records, which holds for a
  new empty collection and after every upsert batch. The upsert itself leaves
  \<^verbatim>\<open>processed_gifts\<close> at the number of records with status \<^verbatim>\<open>active\<close>, unless its own
  save (more than 30 seconds after the last one) has overwritten it.
\<close>

theorem save_collection_processed_gifts:
  "(map_of (collections_cache m) name = Some c \<and> fst (save_collection ev cfg ck name (m, f)) \<longrightarrow>
      map_of (collections_cache (fst (snd (save_collection ev cfg ck name (m, f))))) name
        = Some (stamp_collection ck c) \<and>
      files (snd (snd (save_collection ev cfg ck name (m, f)))) (collection_file cfg name)
        = Some (dumps_collection ev (stamp_collection ck c)) \<and>
      gifts (stamp_collection ck c) = gifts c \<and>
      total_gifts (stamp_collection ck c) = total_gifts c \<and>
      processed_gifts (stamp_collection ck c) = length (gifts c) \<and>
      (total_gifts c = length (gifts c) \<longrightarrow>
         processed_gifts (stamp_collection ck c) = total_gifts (stamp_collection ck c))) \<and>
   total_gifts (create_empty_collection ck name) = length (gifts (create_empty_collection ck name)) \<and>
   (gs \<noteq> [] \<longrightarrow>
      (\<exists>c'. map_of (collections_cache (fst (snd (add_gifts_to_collection ev cfg ck name gs (m, f))))) name = Some c' \<and>
            total_gifts c' = length (gifts c') \<and>
            processed_gifts c' =
              (if time ck - dm_last_save_time m > 30 then length (gifts c')
               else length (filter (\<lambda>g. dict_get g ''status'' = VStr ''active'') (gifts c')))))"
proof -
  have a: "map_of (collections_cache (fst (snd (save_collection ev cfg ck name (m, f))))) name
        = Some (stamp_collection ck c) \<and>
      files (snd (snd (save_collection ev cfg ck name (m, f)))) (collection_file cfg name)
        = Some (dumps_collection ev (stamp_collection ck c))"
    if "map_of (collections_cache m) name = Some c" "fst (save_collection ev cfg ck name (m, f))"
    using save_collection_cached[OF that(1), of ev cfg ck f]
      save_collection_trace(1)[OF that(1), of ev cfg ck f]
      save_collection_trace(3)[OF that(1) that(2)]
    by simp
  have b: "gifts (stamp_collection ck c) = gifts c \<and>
      total_gifts (stamp_collection ck c) = total_gifts c \<and>
      processed_gifts (stamp_collection ck c) = length (gifts c)"
    by (simp add: stamp_collection_def)
  have e: "total_gifts (create_empty_collection ck name) = length (gifts (create_empty_collection ck name))"
    by (simp add: create_empty_collection_def)
  show ?thesis
    using a b e add_gifts_cached[of gs ev cfg ck name m f] by (intro conjI impI) (simp_all)
qed

theorem save_collection_processed_gifts_witness:
  "fst (snd (add_gifts_to_collection example_env default_config clock0 ''lightsword'' [changed_gift]
               (new_data_manager clock0, empty_filesystem))) = deleted_data_manager \<and>
   map_of (collections_cache deleted_data_manager) ''lightsword'' = Some deleted_collection \<and>
   processed_gifts deleted_collection = 0 \<and>
   total_gifts deleted_collection = length (gifts deleted_collection) \<and>
   fst (save_collection example_env default_config clock1 ''lightsword''
          (deleted_data_manager, empty_filesystem)) \<and>
   map_of (collections_cache (fst (snd (save_collection example_env default_config clock1 ''lightsword''
          (deleted_data_manager, empty_filesystem))))) ''lightsword''
     = Some (stamp_collection clock1 deleted_collection) \<and>
   processed_gifts (stamp_collection clock1 deleted_collection) = 1 \<and>
   total_gifts (stamp_collection clock1 deleted_collection) = 1"
proof -
  have c: "map_of (collections_cache deleted_data_manager) ''lightsword'' = Some deleted_collection"
    by (simp add: deleted_data_manager_def)
  have p: "processed_gifts deleted_collection = 0"
    "total_gifts deleted_collection = length (gifts deleted_collection)"
    "length (gifts deleted_collection) = 1"
    by (simp_all add: deleted_collection_def)
  have ok: "fst (save_collection example_env default_config clock1 ''lightsword''
          (deleted_data_manager, empty_filesystem))"
    by (simp add: save_collection_def deleted_data_manager_def backup_step_def fs_exists_def
        fs_write_def fs_rename_def empty_filesystem_def Let_def)
  from save_collection_processed_gifts[where m=deleted_data_manager and name="''lightsword''"
      and c=deleted_collection and ev=example_env and cfg=default_config and ck=clock1
      and f=empty_filesystem and gs="[changed_gift]"] c ok p
  have "map_of (collections_cache (fst (snd (save_collection example_env default_config clock1 ''lightsword''
          (deleted_data_manager, empty_filesystem))))) ''lightsword''
     = Some (stamp_collection clock1 deleted_collection)"
    and "processed_gifts (stamp_collection clock1 deleted_collection) = 1"
    and "total_gifts (stamp_collection clock1 deleted_collection) = 1"
    by simp_all
  with c p ok example_add_deleted show ?thesis by simp
qed

section \<open>A failing collection does not stop the run\<close>











section \<open>Every URL handed to the downloader ends with a terminal record\<close>














end
